theory Spec2Isabelle
  imports Complex_Main "HOL-Library.Word"
begin

unbundle bit_operations_syntax

section \<open>Lifelog transfer over Data Request SP and Convoy\<close>

text \<open>
  A shallow embedding of \<^verbatim>\<open>gshock_api/iolib/lifelog_io.py\<close>. The class
  \<^verbatim>\<open>LifelogIO\<close> keeps its session in four class attributes; the model passes them
  around as a record. A handler returns the error it raised, if any, next to the state it
  leaves behind, because a Python exception does not undo the assignments made before it.
\<close>

subsection \<open>Bytes, errors and the collaborators\<close>

type_synonym byte = "8 word"

datatype error =
    TimeoutError
  | InvalidStateError
  | StructError
  | TransportError
  | AttributeError

text \<open>
  The transport behind \<^verbatim>\<open>ConnectionProtocol\<close> is not part of this module. The
  model keeps what the module can observe of it: the log of completed writes, and whether a
  write fails.
\<close>

record connection_protocol =
  sent :: "(byte \<times> string) list"
  failing :: bool

text \<open>\<^verbatim>\<open>await connection.write(handle, text)\<close>: the write completes or raises.\<close>

definition conn_write :: "connection_protocol \<Rightarrow> byte \<Rightarrow> string \<Rightarrow> error + connection_protocol" where
  "conn_write c handle txt =
     (if failing c then Inl TransportError else Inr (c\<lparr>sent := sent c @ [(handle, txt)]\<rparr>))"

text \<open>
  \<^verbatim>\<open>asyncio.create_task(connection.write(handle, text))\<close> inside
  \<^verbatim>\<open>try: ... except Exception: pass\<close>: the write is scheduled, and whatever goes wrong
  with it never reaches the handler.
\<close>

definition create_task_write :: "connection_protocol \<Rightarrow> byte \<Rightarrow> string \<Rightarrow> connection_protocol" where
  "create_task_write c handle txt =
     (case conn_write c handle txt of Inl e \<Rightarrow> c | Inr c' \<Rightarrow> c')"

text \<open>
  The helpers \<^verbatim>\<open>to_hex_string\<close> and \<^verbatim>\<open>to_compact_string\<close> of
  \<^verbatim>\<open>gshock_api.utils\<close> are taken as parameters: the module only passes their result on
  to the transport.
\<close>

record utils =
  to_hex_string :: "byte list \<Rightarrow> string"
  to_compact_string :: "string \<Rightarrow> string"

text \<open>
  Modelled from the spec: \<^verbatim>\<open>CancelableResult\<close> (module
  \<^verbatim>\<open>gshock_api.cancelable_result\<close>, not among the sources) is the Result Channel, a
  one-shot slot with a timer. \<open>delivered\<close> lists the values handed to the caller. The
  timeout is a float that this module only passes on; the model keeps it as a real number.
  Whether a second \<^verbatim>\<open>set_result\<close> is a no-op or a programming error is the
  implementation's choice: the field \<open>raises_when_done\<close>.
\<close>

record cancelable_result =
  timeout :: real
  raises_when_done :: bool
  delivered :: "int list"

text \<open>
  Modelled from the spec: the constructor \<^verbatim>\<open>CancelableResult(timeout=...)\<close> arms
  the channel with the timeout; nothing is delivered yet.
\<close>

definition CancelableResult :: "bool \<Rightarrow> real \<Rightarrow> cancelable_result" where
  "CancelableResult strict t = \<lparr>timeout = t, raises_when_done = strict, delivered = []\<rparr>"

text \<open>
  Modelled from the spec: \<^verbatim>\<open>set_result\<close> delivers exactly once; a second call is
  a no-op or a programming error, never a second delivery to the caller.
\<close>

definition set_result :: "int \<Rightarrow> cancelable_result \<Rightarrow> error option \<times> cancelable_result" where
  "set_result v rc =
     (if delivered rc = [] then (None, rc\<lparr>delivered := [v]\<rparr>)
      else if raises_when_done rc then (Some InvalidStateError, rc)
      else (None, rc))"

text \<open>
  Modelled from the spec: \<^verbatim>\<open>get_result\<close> suspends the caller until a value is
  delivered or the timer runs out, and then fails with a timeout error. The model gives the
  outcome of the wait: the delivered value, or the timeout when there is none.
\<close>

definition get_result :: "cancelable_result \<Rightarrow> error + int" where
  "get_result rc = (case delivered rc of [] \<Rightarrow> Inl TimeoutError | v # _ \<Rightarrow> Inr v)"

text \<open>
  \<^verbatim>\<open>struct.unpack_from("<I", buffer, offset)[0]\<close>: the unsigned 32-bit integer stored
  least-significant byte first at \<open>offset\<close>; \<^verbatim>\<open>struct.error\<close> when fewer than four
  bytes are left there.
\<close>

definition unpack_from_u32_le :: "byte list \<Rightarrow> nat \<Rightarrow> error + int" where
  "unpack_from_u32_le buf off =
     (if length buf < off + 4 then Inl StructError
      else Inr (((uint (buf ! off) OR push_bit 8 (uint (buf ! (off + 1))))
                 OR push_bit 16 (uint (buf ! (off + 2)))) OR push_bit 24 (uint (buf ! (off + 3)))))"

subsection \<open>The session state and its handlers\<close>

record lifelog_io =
  connection :: "connection_protocol option"
  result :: "cancelable_result option"
  buffer :: "byte list"
  expected_len :: "int option"

definition STEPS_OFFSET :: nat where
  "STEPS_OFFSET = 374"

definition finalize_if_ready :: "lifelog_io \<Rightarrow> error option \<times> lifelog_io" where
  "finalize_if_ready s =
     (case result s of
        None \<Rightarrow> (None, s)
      | Some rc \<Rightarrow>
          (case expected_len s of
             None \<Rightarrow> (None, s)
           | Some n \<Rightarrow>
               if int (length (buffer s)) < n then (None, s)
               else if length (buffer s) \<ge> STEPS_OFFSET + 4 then
                 (case unpack_from_u32_le (buffer s) STEPS_OFFSET of
                    Inl e \<Rightarrow> (Some e, s)
                  | Inr steps \<Rightarrow>
                      (case set_result steps rc of
                         (e, rc') \<Rightarrow> (e, s\<lparr>result := Some rc'\<rparr>)))
               else (None, s)))"

definition on_drsp_received :: "byte list \<Rightarrow> lifelog_io \<Rightarrow> error option \<times> lifelog_io" where
  "on_drsp_received data s =
     (if length data < 5 then (None, s)
      else
        let command = data ! 0; category = data ! 1 in
        if category \<noteq> 0x11 then (None, s)
        else
          let len = (uint (data ! 2) OR push_bit 8 (uint (data ! 3))) OR push_bit 16 (uint (data ! 4));
              s1 = (if command = 0x00 then s\<lparr>expected_len := Some len\<rparr> else s)
          in if command = 0x04 then finalize_if_ready s1 else (None, s1))"

definition end_cmd :: "byte list" where
  "end_cmd = [0x04, 0x11, 0x00, 0x00, 0x00]"

text \<open>Lines 63 to 77: the best-effort end frame, sent only when a connection is bound.\<close>

definition send_end :: "utils \<Rightarrow> lifelog_io \<Rightarrow> lifelog_io" where
  "send_end u s =
     (case connection s of
        None \<Rightarrow> s
      | Some c \<Rightarrow>
          s\<lparr>connection := Some (create_task_write c 0x11 (to_compact_string u (to_hex_string u end_cmd)))\<rparr>)"

definition on_convoy_received :: "utils \<Rightarrow> byte list \<Rightarrow> lifelog_io \<Rightarrow> error option \<times> lifelog_io" where
  "on_convoy_received u data s =
     (if data = [] then (None, s)
      else
        let s1 = s\<lparr>buffer := buffer s @ data\<rparr> in
        (case expected_len s1 of
           None \<Rightarrow> (None, s1)
         | Some n \<Rightarrow>
             if int (length (buffer s1)) \<ge> n then finalize_if_ready (send_end u s1)
             else (None, s1)))"

subsection \<open>Notifications in sequence\<close>

datatype event = Drsp "byte list" | Convoy "byte list"

definition handle :: "utils \<Rightarrow> event \<Rightarrow> lifelog_io \<Rightarrow> error option \<times> lifelog_io" where
  "handle u ev s = (case ev of Drsp d \<Rightarrow> on_drsp_received d s | Convoy d \<Rightarrow> on_convoy_received u d s)"

text \<open>
  The host calls one handler per notification, in arrival order; an error raised by a
  handler ends that handler only. \<open>run\<close> returns the errors raised and the final state.
\<close>

fun run :: "utils \<Rightarrow> event list \<Rightarrow> lifelog_io \<Rightarrow> error list \<times> lifelog_io" where
  "run u [] s = ([], s)"
| "run u (ev # evs) s =
     (case handle u ev s of
        (e, s') \<Rightarrow> (case run u evs s' of (es, s'') \<Rightarrow> (case e of None \<Rightarrow> es | Some x \<Rightarrow> x # es, s'')))"

subsection \<open>The driver\<close>

definition start_cmd :: "byte list" where
  "start_cmd = [0x00, 0x11, 0x00, 0x00, 0x00]"

text \<open>
  \<^verbatim>\<open>request\<close> is a coroutine. It sets up the session and writes the start frame, then
  waits on the result channel while the host handles the notifications \<open>evs\<close> that arrive
  before the channel settles. \<open>t = None\<close> is a call that omits \<^verbatim>\<open>timeout\<close>.
\<close>

definition request_begin ::
  "utils \<Rightarrow> bool \<Rightarrow> connection_protocol \<Rightarrow> real option \<Rightarrow> lifelog_io \<Rightarrow> error option \<times> lifelog_io" where
  "request_begin u strict c t s =
     (let s1 = s\<lparr>connection := Some c, buffer := [], expected_len := None,
                 result := Some (CancelableResult strict (case t of None \<Rightarrow> 60 | Some x \<Rightarrow> x))\<rparr>
      in case conn_write c 0x11 (to_compact_string u (to_hex_string u start_cmd)) of
           Inl e \<Rightarrow> (Some e, s1)
         | Inr c' \<Rightarrow> (None, s1\<lparr>connection := Some c'\<rparr>))"

definition request ::
  "utils \<Rightarrow> bool \<Rightarrow> connection_protocol \<Rightarrow> real option \<Rightarrow> event list \<Rightarrow> lifelog_io
     \<Rightarrow> (error + int) \<times> lifelog_io" where
  "request u strict c t evs s =
     (case request_begin u strict c t s of
        (Some e, s1) \<Rightarrow> (Inl e, s1)
      | (None, s1) \<Rightarrow>
          (case run u evs s1 of
             (es, s2) \<Rightarrow>
               (case result s2 of
                  None \<Rightarrow> (Inl AttributeError, s2)
                | Some rc \<Rightarrow> (get_result rc, s2))))"

subsection \<open>The class attributes before any request\<close>

definition initial :: lifelog_io where
  "initial = \<lparr>connection = None, result = None, buffer = [], expected_len = None\<rparr>"

section \<open>What the properties are measured against\<close>

text \<open>
  The unsigned integer a byte sequence denotes when read least-significant byte first, and
  the Python slice \<^verbatim>\<open>xs[i:j]\<close> for \<open>i \<le> j\<close> within range.
\<close>

fun le_uint :: "byte list \<Rightarrow> int" where
  "le_uint [] = 0"
| "le_uint (x # xs) = uint x + 256 * le_uint xs"

definition py_slice :: "nat \<Rightarrow> nat \<Rightarrow> 'a list \<Rightarrow> 'a list" where
  "py_slice i j xs = take (j - i) (drop i xs)"

text \<open>
  The end frame as the specification names it, command 0x04, category 0x11, length 0,
  sent fire-and-forget: a send that completes shows in the connection's log, a send that
  fails leaves no trace and no error.
\<close>

definition emit_end_frame :: "utils \<Rightarrow> connection_protocol \<Rightarrow> connection_protocol" where
  "emit_end_frame u c =
     (if failing c then c
      else c\<lparr>sent := sent c @
                [(0x11, to_compact_string u (to_hex_string u [0x04, 0x11, 0x00, 0x00, 0x00]))]\<rparr>)"

text \<open>
  The data-channel step as the specification words it: the bytes are appended whatever
  they are, and once the expected length is set and reached the end frame goes out on the
  bound connection, if any, and finalization is attempted.
\<close>

definition on_convoy_claimed :: "utils \<Rightarrow> byte list \<Rightarrow> lifelog_io \<Rightarrow> error option \<times> lifelog_io" where
  "on_convoy_claimed u data s =
     (let s1 = s\<lparr>buffer := buffer s @ data\<rparr> in
      case expected_len s1 of
        None \<Rightarrow> (None, s1)
      | Some n \<Rightarrow>
          if n \<le> int (length (buffer s1))
          then finalize_if_ready (s1\<lparr>connection := map_option (emit_end_frame u) (connection s1)\<rparr>)
          else (None, s1))"

text \<open>
  The session in which the last data chunk has completed the payload \<open>b\<close>: the end frame
  has gone out and the channel \<open>rc\<close> holds the steps read from \<open>b\<close>.
\<close>

definition resolved :: "utils \<Rightarrow> byte list \<Rightarrow> cancelable_result \<Rightarrow> lifelog_io \<Rightarrow> lifelog_io" where
  "resolved u b rc s =
     (send_end u (s\<lparr>buffer := b\<rparr>))
       \<lparr>result := Some (rc\<lparr>delivered := [le_uint (py_slice 374 378 b)]\<rparr>)\<rparr>"

text \<open>
  The session a request leaves behind once its start frame is written: the connection's
  log has gained that one frame, the channel is armed with the timeout and holds nothing,
  the buffer is empty and no length is expected.
\<close>

definition fresh :: "utils \<Rightarrow> bool \<Rightarrow> connection_protocol \<Rightarrow> real \<Rightarrow> lifelog_io" where
  "fresh u strict c t =
     \<lparr>connection =
        Some (c\<lparr>sent := sent c @
                 [(0x11, to_compact_string u (to_hex_string u [0x00, 0x11, 0x00, 0x00, 0x00]))]\<rparr>),
      result = Some \<lparr>timeout = t, raises_when_done = strict, delivered = []\<rparr>,
      buffer = [], expected_len = None\<rparr>"

subsection \<open>Concrete inputs\<close>

text \<open>A sample pair of text helpers and a working transport with an empty log.\<close>

definition hex_digit :: "nat \<Rightarrow> char" where
  "hex_digit n = ''0123456789abcdef'' ! n"

definition hex_utils :: utils where
  "hex_utils =
     \<lparr>to_hex_string =
        (\<lambda>bs. concat (map (\<lambda>b. [hex_digit (unat b div 16), hex_digit (unat b mod 16), CHR '' '']) bs)),
      to_compact_string = filter (\<lambda>c. c \<noteq> CHR '' '')\<rparr>"

definition link :: connection_protocol where
  "link = \<lparr>sent = [], failing = False\<rparr>"

text \<open>A transport whose every write fails.\<close>

definition dead_link :: connection_protocol where
  "dead_link = \<lparr>sent = [], failing = True\<rparr>"

text \<open>Start frames announcing 400 and 10 bytes.\<close>

definition frame400 :: "byte list" where
  "frame400 = [0x00, 0x11, 0x90, 0x01, 0x00]"

definition frame10 :: "byte list" where
  "frame10 = [0x00, 0x11, 0x0A, 0x00, 0x00]"

text \<open>
  A 400-byte payload in four chunks of 100 bytes, whose bytes 374 to 377 are
  \<^verbatim>\<open>64 00 00 00\<close>.
\<close>

definition chunks400 :: "byte list list" where
  "chunks400 =
     [replicate 100 0, replicate 100 0, replicate 100 0,
      replicate 74 0 @ [0x64, 0x00, 0x00, 0x00] @ replicate 22 0]"

text \<open>The session right after a request on \<open>link\<close> with the default timeout.\<close>

definition armed :: "bool \<Rightarrow> lifelog_io" where
  "armed strict = snd (request_begin hex_utils strict link None initial)"

text \<open>
  The connection of that session, with the start frame in its log, and the session once the
  device has announced 10 bytes.
\<close>

definition started_link :: connection_protocol where
  "started_link =
     \<lparr>sent = [(0x11, to_compact_string hex_utils (to_hex_string hex_utils start_cmd))],
      failing = False\<rparr>"

definition announced10 :: lifelog_io where
  "announced10 = snd (on_drsp_received frame10 (armed False))"

text \<open>
  The same session after the whole payload arrived ahead of the device's start frame, and
  after a 10-byte transfer was announced and received.
\<close>

definition late_start :: "bool \<Rightarrow> lifelog_io" where
  "late_start strict = snd (run hex_utils (map Convoy chunks400 @ [Drsp frame400]) (armed strict))"

definition short_session :: lifelog_io where
  "short_session = snd (run hex_utils [Drsp frame10, Convoy (replicate 10 0)] (armed False))"

section \<open>Properties\<close>

subsection \<open>Bytes assembled with shifts and bitwise or\<close>

lemma or_push_bit_add:
  fixes x k :: int
  assumes "0 \<le> x" "x < 2 ^ n"
  shows "x OR push_bit n k = x + 2 ^ n * k"
proof -
  have x: "take_bit n x = x"
    using assms by (simp add: take_bit_int_eq_self)
  have "x + push_bit n k = x OR push_bit n k"
  proof (rule disjunctive_add)
    fix m
    have "bit x m \<Longrightarrow> m < n"
      using x by (metis bit_take_bit_iff)
    then show "\<not> bit x m \<or> \<not> bit (push_bit n k) m"
      by (auto simp: bit_push_bit_iff)
  qed
  then show ?thesis
    by (simp add: push_bit_eq_mult mult.commute)
qed

lemma uint_byte_bounds:
  fixes a :: byte
  shows "0 \<le> uint a" "uint a < 256"
  using uint_bounded [of a] by simp_all

lemma le24_sum:
  fixes a b c :: byte
  shows "(uint a OR push_bit 8 (uint b)) OR push_bit 16 (uint c)
         = uint a + 256 * uint b + 65536 * uint c"
proof -
  have ab: "uint a OR push_bit 8 (uint b) = uint a + 256 * uint b"
    using or_push_bit_add [of "uint a" 8 "uint b"] uint_byte_bounds [of a] by simp
  have "0 \<le> uint a + 256 * uint b" "uint a + 256 * uint b < 2 ^ 16"
    using uint_byte_bounds [of a] uint_byte_bounds [of b] by simp_all
  then have "(uint a + 256 * uint b) OR push_bit 16 (uint c)
             = uint a + 256 * uint b + 2 ^ 16 * uint c"
    by (rule or_push_bit_add)
  with ab show ?thesis
    by simp
qed

lemma le32_sum:
  fixes a b c d :: byte
  shows "((uint a OR push_bit 8 (uint b)) OR push_bit 16 (uint c)) OR push_bit 24 (uint d)
         = uint a + 256 * uint b + 65536 * uint c + 16777216 * uint d"
proof -
  have "0 \<le> uint a + 256 * uint b + 65536 * uint c"
    "uint a + 256 * uint b + 65536 * uint c < 2 ^ 24"
    using uint_byte_bounds [of a] uint_byte_bounds [of b] uint_byte_bounds [of c] by simp_all
  then have "(uint a + 256 * uint b + 65536 * uint c) OR push_bit 24 (uint d)
             = uint a + 256 * uint b + 65536 * uint c + 2 ^ 24 * uint d"
    by (rule or_push_bit_add)
  then show ?thesis
    by (simp add: le24_sum)
qed

lemma take4:
  assumes "4 \<le> length xs"
  shows "take 4 xs = [xs ! 0, xs ! 1, xs ! 2, xs ! 3]"
proof -
  obtain a b c d ys where "xs = a # b # c # d # ys"
    using assms
    by (cases xs; simp; rename_tac x1 l1; case_tac l1; simp;
        rename_tac x2 l2; case_tac l2; simp; rename_tac x3 l3; case_tac l3; simp)
  then show ?thesis by simp
qed

lemma slice4:
  assumes "off + 4 \<le> length buf"
  shows "py_slice off (off + 4) buf = [buf ! off, buf ! (off + 1), buf ! (off + 2), buf ! (off + 3)]"
proof -
  have "4 \<le> length (drop off buf)"
    using assms by simp
  then have "take 4 (drop off buf)
             = [drop off buf ! 0, drop off buf ! 1, drop off buf ! 2, drop off buf ! 3]"
    by (rule take4)
  moreover have "drop off buf ! i = buf ! (off + i)" if "i < 4" for i
    using assms that by simp
  ultimately show ?thesis
    by (simp add: py_slice_def)
qed

lemma unpack_from_slice:
  assumes "off + 4 \<le> length buf"
  shows "unpack_from_u32_le buf off = Inr (le_uint (py_slice off (off + 4) buf))"
  using assms by (simp add: unpack_from_u32_le_def slice4 le32_sum)

lemma steps_end: "STEPS_OFFSET + 4 = 378"
  by (simp add: STEPS_OFFSET_def)

lemma unpack_steps:
  assumes "378 \<le> length buf"
  shows "unpack_from_u32_le buf STEPS_OFFSET = Inr (le_uint (py_slice 374 378 buf))"
  using unpack_from_slice [of 374 buf] assms by (simp add: STEPS_OFFSET_def)

lemma steps_of_chunks400: "le_uint (py_slice 374 378 (concat chunks400)) = 100"
  by (simp add: chunks400_def py_slice_def)

subsection \<open>Finalization\<close>

lemma finalize_no_request: "result s = None \<Longrightarrow> finalize_if_ready s = (None, s)"
  by (simp add: finalize_if_ready_def)

lemma finalize_first:
  assumes "result s = Some rc" "delivered rc = []" "expected_len s = Some n"
    "n \<le> int (length (buffer s))" "378 \<le> length (buffer s)"
  shows "finalize_if_ready s =
           (None, s\<lparr>result := Some (rc\<lparr>delivered := [le_uint (py_slice 374 378 (buffer s))]\<rparr>)\<rparr>)"
  using assms by (simp add: finalize_if_ready_def unpack_steps set_result_def steps_end)

lemma finalize_again:
  assumes "result s = Some rc" "delivered rc \<noteq> []" "expected_len s = Some n"
    "n \<le> int (length (buffer s))" "378 \<le> length (buffer s)"
  shows "finalize_if_ready s = (if raises_when_done rc then Some InvalidStateError else None, s)"
  using assms by (simp add: finalize_if_ready_def unpack_steps set_result_def steps_end)

lemma finalize_expected_len: "expected_len (snd (finalize_if_ready s)) = expected_len s"
  by (simp add: finalize_if_ready_def split: option.splits sum.splits prod.splits)

lemma finalize_result_kept:
  assumes "result s = Some rc"
  shows "\<exists>rc'. result (snd (finalize_if_ready s)) = Some rc' \<and> timeout rc' = timeout rc"
  using assms
  by (auto simp: finalize_if_ready_def set_result_def split: option.splits sum.splits if_splits)

lemma finalize_short:
  assumes "expected_len s = Some n" "n \<le> int (length (buffer s))" "length (buffer s) < 378"
  shows "finalize_if_ready s = (None, s)"
  using assms by (simp add: finalize_if_ready_def steps_end split: option.splits)

lemma send_end_fields:
  "result (send_end u s) = result s" "buffer (send_end u s) = buffer s"
  "expected_len (send_end u s) = expected_len s"
  by (simp_all add: send_end_def split: option.splits)

lemma drsp_start:
  assumes "5 \<le> length data" "data ! 0 = 0x00" "data ! 1 = 0x11"
  shows "on_drsp_received data s =
           (None, s\<lparr>expected_len :=
                       Some (uint (data ! 2) + 256 * uint (data ! 3) + 65536 * uint (data ! 4))\<rparr>)"
  using assms by (simp add: on_drsp_received_def le24_sum)

subsection \<open>The concrete sessions\<close>

lemma armed_fields:
  "result (armed strict) = Some (CancelableResult strict 60)"
  "buffer (armed strict) = []"
  "expected_len (armed strict) = None"
  by (simp_all add: armed_def request_begin_def conn_write_def link_def)

lemma length_chunks400: "length (concat chunks400) = 400"
  by (simp add: chunks400_def)

lemma late_start_fields:
  "result (late_start strict) = Some (CancelableResult strict 60)"
  "buffer (late_start strict) = concat chunks400"
  "expected_len (late_start strict) = Some 400"
  by (simp_all add: late_start_def chunks400_def frame400_def handle_def on_convoy_received_def
        on_drsp_received_def le24_sum armed_fields)

lemma short_session_fields:
  "result short_session = Some (CancelableResult False 60)"
  "buffer short_session = replicate 10 0"
  "expected_len short_session = Some 10"
proof -
  let ?s1 = "(armed False)\<lparr>expected_len := Some 10\<rparr>"
  let ?s2 = "send_end hex_utils (?s1\<lparr>buffer := replicate 10 0\<rparr>)"
  have 1: "on_drsp_received frame10 (armed False) = (None, ?s1)"
    using drsp_start [of frame10 "armed False"] by (simp add: frame10_def)
  have "finalize_if_ready ?s2 = (None, ?s2)"
    by (rule finalize_short [where n = 10]) (simp_all add: send_end_fields)
  then have 2: "on_convoy_received hex_utils (replicate 10 0) ?s1 = (None, ?s2)"
    by (simp add: on_convoy_received_def armed_fields)
  have eq: "short_session = ?s2"
    by (simp add: short_session_def handle_def 1 2)
  show "result short_session = Some (CancelableResult False 60)"
    "buffer short_session = replicate 10 0" "expected_len short_session = Some 10"
    by (simp_all add: eq send_end_fields armed_fields)
qed

text \<open>
  C4. When the expected length is set and reached but the buffer is shorter than 378 bytes
  (offset 374 plus 4), finalization does nothing: no error, the session as it was, so the
  result channel is given no value; a caller waiting on a channel that holds nothing can
  only get the timeout.
\<close>

theorem short_payload_not_resolved:
  assumes "expected_len s = Some n" "n \<le> int (length (buffer s))" "length (buffer s) < 378"
  shows "finalize_if_ready s = (None, s)
         \<and> (result s = Some rc \<longrightarrow> delivered rc = [] \<longrightarrow>
              map_option get_result (result (snd (finalize_if_ready s))) = Some (Inl TimeoutError))"
proof -
  have "finalize_if_ready s = (None, s)"
    using assms by (rule finalize_short)
  then show ?thesis
    by (simp add: get_result_def)
qed

theorem short_payload_not_resolved_witness:
  "expected_len short_session = Some 10 \<and> 10 \<le> int (length (buffer short_session))
   \<and> length (buffer short_session) < 378
   \<and> result short_session = Some (CancelableResult False 60)
   \<and> delivered (CancelableResult False 60) = []
   \<and> finalize_if_ready short_session = (None, short_session)
   \<and> map_option get_result (result (snd (finalize_if_ready short_session)))
       = Some (Inl TimeoutError)"
proof -
  have h: "expected_len short_session = Some 10" "10 \<le> int (length (buffer short_session))"
    "length (buffer short_session) < 378"
    and g: "result short_session = Some (CancelableResult False 60)"
    "delivered (CancelableResult False 60) = []"
    by (simp_all add: short_session_fields CancelableResult_def)
  from short_payload_not_resolved [OF h, of "CancelableResult False 60"] h g show ?thesis
    by blast
qed

text \<open>
  C2 (against the result channel as the specification describes it). In a session with a
  request active, whose channel holds at most one value as every channel does, and in which
  finalization is eligible (expected length set and reached, buffer of at least 378 bytes),
  two finalizations in a row leave exactly one value with the caller: the second changes
  nothing, and a channel that held nothing now holds the steps read at offset 374.
\<close>

theorem finalize_twice_delivers_once:
  assumes "result s = Some rc" "length (delivered rc) \<le> 1" "expected_len s = Some n"
    "n \<le> int (length (buffer s))" "378 \<le> length (buffer s)"
  shows "snd (finalize_if_ready (snd (finalize_if_ready s))) = snd (finalize_if_ready s)
         \<and> (\<exists>rc'. result (snd (finalize_if_ready (snd (finalize_if_ready s)))) = Some rc'
                  \<and> length (delivered rc') = 1
                  \<and> (delivered rc = [] \<longrightarrow>
                        delivered rc' = [le_uint (py_slice 374 378 (buffer s))]))"
proof (cases "delivered rc = []")
  case True
  let ?rc = "rc\<lparr>delivered := [le_uint (py_slice 374 378 (buffer s))]\<rparr>"
  let ?s1 = "s\<lparr>result := Some ?rc\<rparr>"
  have 1: "finalize_if_ready s = (None, ?s1)"
    using assms True by (intro finalize_first) simp_all
  have 2: "finalize_if_ready ?s1 = (if raises_when_done ?rc then Some InvalidStateError else None, ?s1)"
    using assms by (intro finalize_again [where n = n]) simp_all
  show ?thesis
    by (simp only: 1 2 snd_conv) simp
next
  case False
  then have 1: "finalize_if_ready s = (if raises_when_done rc then Some InvalidStateError else None, s)"
    using assms by (intro finalize_again [where n = n]) simp_all
  from False assms(2) have "length (delivered rc) = 1"
    by (cases "delivered rc") simp_all
  with False assms(1) show ?thesis
    by (simp only: 1 snd_conv) simp
qed

theorem finalize_twice_delivers_once_witness:
  "result (late_start True) = Some (CancelableResult True 60)
   \<and> length (delivered (CancelableResult True 60)) \<le> 1
   \<and> expected_len (late_start True) = Some 400
   \<and> 400 \<le> int (length (buffer (late_start True)))
   \<and> 378 \<le> length (buffer (late_start True))
   \<and> delivered (CancelableResult True 60) = []
   \<and> snd (finalize_if_ready (snd (finalize_if_ready (late_start True))))
       = snd (finalize_if_ready (late_start True))
   \<and> (\<exists>rc'. result (snd (finalize_if_ready (snd (finalize_if_ready (late_start True))))) = Some rc'
            \<and> length (delivered rc') = 1 \<and> delivered rc' = [100])"
proof -
  have h: "result (late_start True) = Some (CancelableResult True 60)"
    "length (delivered (CancelableResult True 60)) \<le> 1"
    "expected_len (late_start True) = Some 400"
    "400 \<le> int (length (buffer (late_start True)))"
    "378 \<le> length (buffer (late_start True))"
    and g: "delivered (CancelableResult True 60) = []"
    by (simp_all add: late_start_fields length_chunks400 CancelableResult_def)
  have v: "le_uint (py_slice 374 378 (buffer (late_start True))) = 100"
    by (simp add: late_start_fields steps_of_chunks400)
  from finalize_twice_delivers_once [OF h] h g show ?thesis
    unfolding v by blast
qed

subsection \<open>Control-channel notifications\<close>

text \<open>
  C6. A control-channel notification shorter than 5 bytes changes nothing: the handler
  returns at once, with the whole session state as it was, no finalization and no error.
\<close>

theorem short_drsp_ignored:
  "length data < 5 \<Longrightarrow> on_drsp_received data s = (None, s)"
  by (simp add: on_drsp_received_def)

theorem short_drsp_ignored_witness:
  "length [0x00, 0x11, 0x90, 0x01 :: byte] < 5
   \<and> on_drsp_received [0x00, 0x11, 0x90, 0x01] (armed False) = (None, armed False)"
  using short_drsp_ignored [of "[0x00, 0x11, 0x90, 0x01]" "armed False"] by simp

text \<open>
  C7. A control-channel notification of at least 5 bytes whose category byte (byte 1) is not
  0x11 changes nothing: connection, result channel, buffer and expected length all stay,
  and no error is raised.
\<close>

theorem foreign_category_ignored:
  "5 \<le> length data \<Longrightarrow> data ! 1 \<noteq> 0x11 \<Longrightarrow> on_drsp_received data s = (None, s)"
  by (simp add: on_drsp_received_def)

theorem foreign_category_ignored_witness:
  "5 \<le> length [0x00, 0x10, 0x90, 0x01, 0x00 :: byte]
   \<and> [0x00, 0x10, 0x90, 0x01, 0x00 :: byte] ! 1 \<noteq> 0x11
   \<and> on_drsp_received [0x00, 0x10, 0x90, 0x01, 0x00] (armed False) = (None, armed False)"
  using foreign_category_ignored [of "[0x00, 0x10, 0x90, 0x01, 0x00]" "armed False"] by simp

text \<open>
  C8. A control-channel notification of at least 5 bytes with command byte 0x00 and category
  byte 0x11 sets the expected length to data[2] + 256 * data[3] + 65536 * data[4], and does
  nothing else.
\<close>

theorem start_frame_sets_expected_len:
  "5 \<le> length data \<Longrightarrow> data ! 0 = 0x00 \<Longrightarrow> data ! 1 = 0x11 \<Longrightarrow>
   on_drsp_received data s =
     (None, s\<lparr>expected_len :=
                 Some (uint (data ! 2) + 256 * uint (data ! 3) + 65536 * uint (data ! 4))\<rparr>)"
  by (simp add: on_drsp_received_def le24_sum)

theorem start_frame_sets_expected_len_witness:
  "5 \<le> length frame400 \<and> frame400 ! 0 = 0x00 \<and> frame400 ! 1 = 0x11
   \<and> on_drsp_received frame400 (armed False) = (None, (armed False)\<lparr>expected_len := Some 400\<rparr>)"
  using start_frame_sets_expected_len [of frame400 "armed False"] by (simp add: frame400_def)

text \<open>
  C3, as stated: once the expected length is set, no later control-channel notification
  changes it. That fails: a second start frame replaces it. After the start frame announcing
  400 bytes the expected length is 400, and a further start frame announcing 10 makes it 10.
\<close>

theorem expected_len_overwritten:
  "expected_len (snd (on_drsp_received frame400 (armed False))) = Some 400
   \<and> expected_len (snd (on_drsp_received frame10 (snd (on_drsp_received frame400 (armed False)))))
       \<noteq> expected_len (snd (on_drsp_received frame400 (armed False)))"
  by (simp add: on_drsp_received_def Let_def frame400_def frame10_def le24_sum)

text \<open>
  C3, amended: a control-channel notification leaves the expected length as it was unless
  it is itself a start frame (at least 5 bytes, command 0x00, category 0x11); a start frame
  always replaces the expected length by the length it carries, set before or not.
\<close>

theorem expected_len_after_drsp:
  "expected_len (snd (on_drsp_received data s)) =
     (if 5 \<le> length data \<and> data ! 0 = 0x00 \<and> data ! 1 = 0x11
      then Some (uint (data ! 2) + 256 * uint (data ! 3) + 65536 * uint (data ! 4))
      else expected_len s)"
  by (simp add: on_drsp_received_def Let_def finalize_expected_len le24_sum)

theorem expected_len_after_drsp_witness:
  "expected_len (snd (on_drsp_received end_cmd (late_start False))) = Some 400
   \<and> expected_len (snd (on_drsp_received frame10 (late_start False))) = Some 10"
  using expected_len_after_drsp [of end_cmd "late_start False"]
    expected_len_after_drsp [of frame10 "late_start False"]
  by (simp add: end_cmd_def frame10_def late_start_fields)

subsection \<open>No request active\<close>

lemma drsp_no_request:
  assumes "result s = None"
  shows "fst (on_drsp_received data s) = None \<and> result (snd (on_drsp_received data s)) = None"
  using assms by (simp add: on_drsp_received_def Let_def finalize_no_request)

lemma convoy_no_request:
  assumes "result s = None"
  shows "fst (on_convoy_received u data s) = None
         \<and> result (snd (on_convoy_received u data s)) = None"
  using assms
  by (simp add: on_convoy_received_def Let_def finalize_no_request send_end_fields
      split: option.splits)

lemma handle_no_request:
  assumes "result s = None"
  shows "fst (handle u ev s) = None \<and> result (snd (handle u ev s)) = None"
  using assms by (cases ev) (simp_all add: handle_def drsp_no_request convoy_no_request)

lemma run_no_request:
  "result s = None \<Longrightarrow> fst (run u evs s) = [] \<and> result (snd (run u evs s)) = None"
proof (induction evs arbitrary: s)
  case Nil
  then show ?case by simp
next
  case (Cons ev evs)
  obtain e s' where h: "handle u ev s = (e, s')"
    by (cases "handle u ev s")
  with handle_no_request [OF Cons.prems, of u ev] have e: "e = None" and s': "result s' = None"
    by simp_all
  from Cons.IH [OF s'] h e show ?case
    by (simp add: split_beta)
qed

text \<open>
  C10. With no request active (the result slot is \<open>None\<close>), whatever control-channel and
  data-channel notifications arrive, no handler raises an error, the result slot is still
  \<open>None\<close> afterwards, so no value is resolved, and finalization is a no-op both before and
  after them.
\<close>

theorem no_request_no_result:
  "result s = None \<Longrightarrow>
   finalize_if_ready s = (None, s)
   \<and> fst (run u evs s) = []
   \<and> result (snd (run u evs s)) = None
   \<and> finalize_if_ready (snd (run u evs s)) = (None, snd (run u evs s))"
  using run_no_request [of s u evs] by (simp add: finalize_no_request)

theorem no_request_no_result_witness:
  "result initial = None
   \<and> finalize_if_ready initial = (None, initial)
   \<and> fst (run hex_utils (Drsp frame400 # map Convoy chunks400 @ [Drsp end_cmd]) initial) = []
   \<and> result (snd (run hex_utils (Drsp frame400 # map Convoy chunks400 @ [Drsp end_cmd]) initial))
       = None
   \<and> finalize_if_ready (snd (run hex_utils (Drsp frame400 # map Convoy chunks400 @ [Drsp end_cmd]) initial))
       = (None, snd (run hex_utils (Drsp frame400 # map Convoy chunks400 @ [Drsp end_cmd]) initial))"
proof -
  have h: "result initial = None"
    by (simp add: initial_def)
  from no_request_no_result [OF h, of hex_utils "Drsp frame400 # map Convoy chunks400 @ [Drsp end_cmd]"] h
  show ?thesis
    by blast
qed

subsection \<open>Data-channel notifications\<close>

lemma convoy_below:
  assumes "data \<noteq> []" "expected_len s = Some n" "int (length (buffer s) + length data) < n"
  shows "on_convoy_received u data s = (None, s\<lparr>buffer := buffer s @ data\<rparr>)"
  using assms by (simp add: on_convoy_received_def)

lemma convoy_last:
  assumes "data \<noteq> []" "expected_len s = Some (int (length (buffer s) + length data))"
    "result s = Some rc" "delivered rc = []" "378 \<le> length (buffer s) + length data"
  shows "on_convoy_received u data s = (None, resolved u (buffer s @ data) rc s)"
proof -
  let ?s1 = "send_end u (s\<lparr>buffer := buffer s @ data\<rparr>)"
  have "finalize_if_ready ?s1 =
          (None, ?s1\<lparr>result := Some (rc\<lparr>delivered := [le_uint (py_slice 374 378 (buffer ?s1))]\<rparr>)\<rparr>)"
    using assms
    by (intro finalize_first [where n = "int (length (buffer s) + length data)"])
       (simp_all add: send_end_fields)
  then show ?thesis
    using assms by (simp add: on_convoy_received_def resolved_def send_end_fields)
qed

lemma resolved_fields:
  "buffer (resolved u b rc s) = b"
  "result (resolved u b rc s) = Some (rc\<lparr>delivered := [le_uint (py_slice 374 378 b)]\<rparr>)"
  "expected_len (resolved u b rc s) = expected_len s"
  by (simp_all add: resolved_def send_end_fields)

text \<open>
  The chunks of a payload, delivered in order to a session that expects exactly the bytes
  still missing: every chunk but the last only grows the buffer, and the last one resolves
  the channel.
\<close>

lemma run_chunks:
  assumes "chunks \<noteq> []" "\<forall>c \<in> set chunks. c \<noteq> []"
    "expected_len s = Some (int (length (buffer s) + length (concat chunks)))"
    "result s = Some rc" "delivered rc = []"
    "378 \<le> length (buffer s) + length (concat chunks)"
  shows "run u (map Convoy chunks) s = ([], resolved u (buffer s @ concat chunks) rc s)"
  using assms
proof (induction chunks arbitrary: s)
  case Nil
  then show ?case by simp
next
  case (Cons c cs)
  show ?case
  proof (cases "cs = []")
    case True
    with Cons.prems have "on_convoy_received u c s = (None, resolved u (buffer s @ c) rc s)"
      by (intro convoy_last) simp_all
    with True show ?thesis
      by (simp add: handle_def)
  next
    case False
    then obtain d ds where cs: "cs = d # ds"
      by (cases cs) auto
    with Cons.prems have "d \<noteq> []" by simp
    then have pos: "0 < length (concat cs)"
      using cs by simp
    let ?s1 = "s\<lparr>buffer := buffer s @ c\<rparr>"
    have step: "on_convoy_received u c s = (None, ?s1)"
      using Cons.prems pos
      by (intro convoy_below [where n = "int (length (buffer s) + length (concat (c # cs)))"])
         simp_all
    have "run u (map Convoy cs) ?s1 = ([], resolved u (buffer ?s1 @ concat cs) rc ?s1)"
      using Cons.prems False by (intro Cons.IH) simp_all
    moreover have "resolved u (buffer ?s1 @ concat cs) rc ?s1
                   = resolved u (buffer s @ concat (c # cs)) rc s"
      by (simp add: resolved_def send_end_def split: option.splits)
    ultimately show ?thesis
      using step by (simp add: handle_def)
  qed
qed

lemma run_start_chunks:
  assumes "378 \<le> length (concat chunks)" "\<forall>c \<in> set chunks. c \<noteq> []"
    "5 \<le> length data" "data ! 0 = 0x00" "data ! 1 = 0x11"
    "uint (data ! 2) + 256 * uint (data ! 3) + 65536 * uint (data ! 4)
       = int (length (concat chunks))"
    "buffer s = []" "result s = Some rc" "delivered rc = []"
  shows "run u (Drsp data # map Convoy chunks) s
         = ([], resolved u (concat chunks) rc
                  (s\<lparr>expected_len := Some (int (length (concat chunks)))\<rparr>))"
proof -
  let ?s1 = "s\<lparr>expected_len := Some (int (length (concat chunks)))\<rparr>"
  have start: "on_drsp_received data s = (None, ?s1)"
    using assms(3-6) by (simp add: drsp_start)
  have "chunks \<noteq> []"
    using assms(1) by auto
  then have "run u (map Convoy chunks) ?s1 = ([], resolved u (buffer ?s1 @ concat chunks) rc ?s1)"
    using assms by (intro run_chunks) simp_all
  with start assms(7) show ?thesis
    by (simp add: handle_def)
qed

lemma run_scenario:
  assumes "buffer s = []" "result s = Some rc" "delivered rc = []"
  shows "map_option get_result
           (result (snd (run u (Drsp frame400 # map Convoy chunks400) s))) = Some (Inr 100)"
proof -
  have "run u (Drsp frame400 # map Convoy chunks400) s
        = ([], resolved u (concat chunks400) rc
                 (s\<lparr>expected_len := Some (int (length (concat chunks400)))\<rparr>))"
    using assms
    by (intro run_start_chunks) (simp_all add: chunks400_def frame400_def)
  then show ?thesis
    by (simp add: resolved_fields get_result_def steps_of_chunks400)
qed

text \<open>
  C1. Take a session with an empty buffer and a result channel that holds nothing, as a
  request leaves it. Let a start frame announce the length of a payload of at least 378
  bytes, and let the payload arrive in order, cut into non-empty chunks in any way. Then no
  handler raises an error, the buffer ends up as the payload, and the caller gets the
  unsigned 32-bit little-endian integer at bytes 374 to 377 of the payload: a value that
  depends on the payload alone, not on the chunking.
\<close>

theorem chunking_invariance:
  assumes "378 \<le> length (concat chunks)" "\<forall>c \<in> set chunks. c \<noteq> []"
    "5 \<le> length data" "data ! 0 = 0x00" "data ! 1 = 0x11"
    "uint (data ! 2) + 256 * uint (data ! 3) + 65536 * uint (data ! 4)
       = int (length (concat chunks))"
    "buffer s = []" "result s = Some rc" "delivered rc = []"
  shows "fst (run u (Drsp data # map Convoy chunks) s) = []
         \<and> buffer (snd (run u (Drsp data # map Convoy chunks) s)) = concat chunks
         \<and> map_option get_result (result (snd (run u (Drsp data # map Convoy chunks) s)))
             = Some (Inr (le_uint (py_slice 374 378 (concat chunks))))"
proof -
  have "run u (Drsp data # map Convoy chunks) s
        = ([], resolved u (concat chunks) rc
                 (s\<lparr>expected_len := Some (int (length (concat chunks)))\<rparr>))"
    using assms by (rule run_start_chunks)
  then show ?thesis
    by (simp add: resolved_fields get_result_def)
qed

theorem chunking_invariance_witness:
  "378 \<le> length (concat chunks400) \<and> [] \<notin> set chunks400
   \<and> 5 \<le> length frame400 \<and> frame400 ! 0 = 0x00 \<and> frame400 ! 1 = 0x11
   \<and> uint (frame400 ! 2) + 256 * uint (frame400 ! 3) + 65536 * uint (frame400 ! 4)
       = int (length (concat chunks400))
   \<and> buffer (armed False) = [] \<and> result (armed False) = Some (CancelableResult False 60)
   \<and> delivered (CancelableResult False 60) = []
   \<and> fst (run hex_utils (Drsp frame400 # map Convoy chunks400) (armed False)) = []
   \<and> buffer (snd (run hex_utils (Drsp frame400 # map Convoy chunks400) (armed False)))
       = concat chunks400
   \<and> map_option get_result
        (result (snd (run hex_utils (Drsp frame400 # map Convoy chunks400) (armed False))))
       = Some (Inr 100)"
proof -
  have h: "378 \<le> length (concat chunks400)" "\<forall>c \<in> set chunks400. c \<noteq> []"
    "5 \<le> length frame400" "frame400 ! 0 = 0x00" "frame400 ! 1 = 0x11"
    "uint (frame400 ! 2) + 256 * uint (frame400 ! 3) + 65536 * uint (frame400 ! 4)
       = int (length (concat chunks400))"
    "buffer (armed False) = []" "result (armed False) = Some (CancelableResult False 60)"
    "delivered (CancelableResult False 60) = []"
    by (simp_all add: chunks400_def frame400_def armed_fields CancelableResult_def)
  from chunking_invariance [OF h, of hex_utils] h show ?thesis
    unfolding steps_of_chunks400 by blast
qed

lemma send_end_emit:
  "send_end u s = s\<lparr>connection := map_option (emit_end_frame u) (connection s)\<rparr>"
  by (cases "connection s")
     (simp_all add: send_end_def create_task_write_def conn_write_def emit_end_frame_def
        end_cmd_def)

lemma finalize_buffer: "buffer (snd (finalize_if_ready s)) = buffer s"
  by (simp add: finalize_if_ready_def split: option.splits sum.splits prod.splits)

lemma finalize_connection: "connection (snd (finalize_if_ready s)) = connection s"
  by (simp add: finalize_if_ready_def split: option.splits sum.splits prod.splits)

lemma convoy_reached:
  assumes "data \<noteq> []" "expected_len s = Some n" "n \<le> int (length (buffer s @ data))"
  shows "on_convoy_received u data s
         = finalize_if_ready
             (s\<lparr>buffer := buffer s @ data,
                connection := map_option (emit_end_frame u) (connection s)\<rparr>)"
  using assms by (simp add: on_convoy_received_def send_end_emit)

lemma announced10_fields:
  "expected_len announced10 = Some 10" "buffer announced10 = []"
  "connection announced10 = Some started_link"
proof -
  have "on_drsp_received frame10 (armed False) = (None, (armed False)\<lparr>expected_len := Some 10\<rparr>)"
    using drsp_start [of frame10 "armed False"] by (simp add: frame10_def)
  then have eq: "announced10 = (armed False)\<lparr>expected_len := Some 10\<rparr>"
    by (simp add: announced10_def)
  show "expected_len announced10 = Some 10" "buffer announced10 = []"
    "connection announced10 = Some started_link"
    by (simp_all add: eq armed_fields armed_def request_begin_def conn_write_def link_def
          started_link_def)
qed

text \<open>
  C5, as stated: the handler appends every payload, the empty one included, and emits the
  end frame and attempts finalization whenever the expected length is set and reached after
  the append. That fails at the empty payload, which the handler drops on entry. When the
  whole payload has arrived ahead of the start frame, the expected length is set and
  reached, and an empty notification leaves the session untouched: no end frame, nothing
  resolved, where the stated step resolves the channel.
\<close>

theorem empty_payload_skipped:
  "expected_len (late_start False) = Some 400
   \<and> 400 \<le> int (length (buffer (late_start False) @ []))
   \<and> on_convoy_received hex_utils [] (late_start False) = (None, late_start False)
   \<and> on_convoy_received hex_utils [] (late_start False)
       \<noteq> on_convoy_claimed hex_utils [] (late_start False)"
proof -
  let ?s = "late_start False"
  let ?s1 = "?s\<lparr>connection := map_option (emit_end_frame hex_utils) (connection ?s)\<rparr>"
  let ?rc = "(CancelableResult False 60)\<lparr>delivered := [le_uint (py_slice 374 378 (buffer ?s1))]\<rparr>"
  have "finalize_if_ready ?s1 = (None, ?s1\<lparr>result := Some ?rc\<rparr>)"
    by (intro finalize_first [where n = 400])
       (simp_all add: late_start_fields length_chunks400 CancelableResult_def)
  moreover have "on_convoy_claimed hex_utils [] ?s = finalize_if_ready ?s1"
    by (simp add: on_convoy_claimed_def Let_def) (simp add: late_start_fields length_chunks400)
  ultimately have "result (snd (on_convoy_claimed hex_utils [] ?s)) = Some ?rc"
    by simp
  then have "result (snd (on_convoy_claimed hex_utils [] ?s)) \<noteq> result ?s"
    by (simp add: late_start_fields CancelableResult_def)
  then have "on_convoy_claimed hex_utils [] ?s \<noteq> (None, ?s)"
    by auto
  then show ?thesis
    by (simp add: on_convoy_received_def late_start_fields length_chunks400)
qed

text \<open>
  C5, amended: for every non-empty payload and every session state the handler does the
  stated step. It appends the bytes to the buffer. When the expected length is set and
  reached after the append, it sends the end frame and then attempts finalization on the
  session so updated: on a bound connection whose write completes, the connection's log
  gains exactly the frame \<^verbatim>\<open>04 11 00 00 00\<close>, encoded as text, on handle 0x11; with no
  connection bound, or a failing one, nothing is sent and finalization is attempted all the
  same. When the expected length is not set or not reached, the append is all that
  happens. An empty payload is ignored: nothing appended, no end frame, no finalization.
\<close>

theorem convoy_nonempty_payload:
  "(data \<noteq> [] \<longrightarrow>
      on_convoy_received u data s = on_convoy_claimed u data s
      \<and> buffer (snd (on_convoy_received u data s)) = buffer s @ data
      \<and> (expected_len s = Some n \<longrightarrow> n \<le> int (length (buffer s @ data)) \<longrightarrow>
            on_convoy_received u data s
              = finalize_if_ready
                  (s\<lparr>buffer := buffer s @ data,
                     connection := map_option (emit_end_frame u) (connection s)\<rparr>)
            \<and> (connection s = Some c \<longrightarrow> \<not> failing c \<longrightarrow>
                  connection (snd (on_convoy_received u data s))
                    = Some (c\<lparr>sent := sent c @
                         [(0x11, to_compact_string u (to_hex_string u [0x04, 0x11, 0x00, 0x00, 0x00]))]\<rparr>))
            \<and> (connection s = Some c \<longrightarrow> failing c \<longrightarrow>
                  connection (snd (on_convoy_received u data s)) = Some c)
            \<and> (connection s = None \<longrightarrow> connection (snd (on_convoy_received u data s)) = None))
      \<and> (expected_len s = None \<longrightarrow>
            on_convoy_received u data s = (None, s\<lparr>buffer := buffer s @ data\<rparr>))
      \<and> (expected_len s = Some n \<longrightarrow> int (length (buffer s @ data)) < n \<longrightarrow>
            on_convoy_received u data s = (None, s\<lparr>buffer := buffer s @ data\<rparr>)))
   \<and> on_convoy_received u [] s = (None, s)"
proof -
  have empty: "on_convoy_received u [] s = (None, s)"
    by (simp add: on_convoy_received_def)
  have claimed: "on_convoy_received u data s = on_convoy_claimed u data s" if "data \<noteq> []"
    using that
    by (simp add: on_convoy_received_def on_convoy_claimed_def Let_def send_end_emit
          split: option.splits)
  have buf: "buffer (snd (on_convoy_received u data s)) = buffer s @ data" if "data \<noteq> []"
    using that
    by (simp add: on_convoy_received_def Let_def finalize_buffer send_end_fields
          split: option.splits)
  have fin: "on_convoy_received u data s
             = finalize_if_ready
                 (s\<lparr>buffer := buffer s @ data,
                    connection := map_option (emit_end_frame u) (connection s)\<rparr>)"
    if "data \<noteq> []" "expected_len s = Some n" "n \<le> int (length (buffer s @ data))"
    using that by (rule convoy_reached)
  have below: "on_convoy_received u data s = (None, s\<lparr>buffer := buffer s @ data\<rparr>)"
    if "data \<noteq> []" "expected_len s = None \<or> (expected_len s = Some n \<and> int (length (buffer s @ data)) < n)"
    using that by (auto simp: on_convoy_received_def)
  show ?thesis
    using empty claimed buf fin below by (simp add: emit_end_frame_def finalize_connection)
qed

theorem convoy_nonempty_payload_witness:
  "replicate 10 (0 :: byte) \<noteq> []
   \<and> expected_len announced10 = Some 10
   \<and> 10 \<le> int (length (buffer announced10 @ replicate 10 0))
   \<and> connection announced10 = Some started_link
   \<and> \<not> failing started_link
   \<and> on_convoy_received hex_utils (replicate 10 0) announced10
       = on_convoy_claimed hex_utils (replicate 10 0) announced10
   \<and> buffer (snd (on_convoy_received hex_utils (replicate 10 0) announced10)) = replicate 10 0
   \<and> on_convoy_received hex_utils (replicate 10 0) announced10
       = finalize_if_ready
           (announced10\<lparr>buffer := buffer announced10 @ replicate 10 0,
              connection := map_option (emit_end_frame hex_utils) (connection announced10)\<rparr>)
   \<and> connection (snd (on_convoy_received hex_utils (replicate 10 0) announced10))
       = Some (started_link\<lparr>sent := sent started_link @
            [(0x11, to_compact_string hex_utils (to_hex_string hex_utils [0x04, 0x11, 0x00, 0x00, 0x00]))]\<rparr>)
   \<and> on_convoy_received hex_utils [] announced10 = (None, announced10)"
proof -
  have h: "replicate 10 (0 :: byte) \<noteq> []" "expected_len announced10 = Some 10"
    "10 \<le> int (length (buffer announced10 @ replicate 10 0))"
    "connection announced10 = Some started_link" "\<not> failing started_link"
    by (simp_all add: announced10_fields started_link_def)
  have b: "buffer announced10 @ replicate 10 0 = replicate 10 0"
    by (simp add: announced10_fields)
  from convoy_nonempty_payload [of "replicate 10 0" hex_utils announced10 10 started_link] h
  show ?thesis
    unfolding b by blast
qed

subsection \<open>The request\<close>

lemma handle_result_kept:
  assumes "result s = Some rc"
  shows "\<exists>rc'. result (snd (handle u ev s)) = Some rc' \<and> timeout rc' = timeout rc"
proof (cases ev)
  case (Drsp d)
  show ?thesis
  proof (cases "5 \<le> length d \<and> d ! 1 = 0x11 \<and> d ! 0 = 0x04")
    case True
    then have "handle u ev s = finalize_if_ready s"
      using Drsp by (simp add: handle_def on_drsp_received_def)
    with finalize_result_kept [OF assms] show ?thesis by simp
  next
    case False
    then have "result (snd (handle u ev s)) = result s"
      using Drsp by (auto simp: handle_def on_drsp_received_def Let_def)
    with assms show ?thesis by simp
  qed
next
  case (Convoy d)
  let ?s1 = "send_end u (s\<lparr>buffer := buffer s @ d\<rparr>)"
  have "result ?s1 = Some rc"
    using assms by (simp add: send_end_fields)
  from finalize_result_kept [OF this] assms Convoy show ?thesis
    by (auto simp: handle_def on_convoy_received_def Let_def split: option.splits)
qed

lemma run_result_kept:
  "result s = Some rc \<Longrightarrow> \<exists>rc'. result (snd (run u evs s)) = Some rc' \<and> timeout rc' = timeout rc"
proof (induction evs arbitrary: s rc)
  case Nil
  then show ?case by simp
next
  case (Cons ev evs)
  obtain e s' where h: "handle u ev s = (e, s')"
    by (cases "handle u ev s")
  with handle_result_kept [OF Cons.prems, of u ev] obtain rc1
    where rc1: "result s' = Some rc1" "timeout rc1 = timeout rc"
    by auto
  from Cons.IH [OF rc1(1)] rc1(2) h show ?case
    by (auto simp: split_beta)
qed

lemma request_begin_ok:
  assumes "\<not> failing c"
  shows "request_begin u strict c t s
         = (None, fresh u strict c (case t of None \<Rightarrow> 60 | Some x \<Rightarrow> x))"
  using assms
  by (cases s)
     (simp add: request_begin_def conn_write_def fresh_def CancelableResult_def start_cmd_def)

lemma request_begin_failing:
  assumes "failing c"
  shows "request_begin u strict c t s
         = (Some TransportError,
            (fresh u strict c (case t of None \<Rightarrow> 60 | Some x \<Rightarrow> x))\<lparr>connection := Some c\<rparr>)"
  using assms
  by (cases s)
     (simp add: request_begin_def conn_write_def fresh_def CancelableResult_def start_cmd_def)

text \<open>
  C9, as stated: every call sets up a fresh session, arms the channel, sends the start
  frame and then returns whatever the channel's \<^verbatim>\<open>get_result\<close> yields or raises. That
  fails when the transport's write raises: the start write is awaited with no handler
  around it, so the call ends with the transport's error, the frame unsent, while the
  channel, never awaited, holds nothing and would yield the timeout.
\<close>

theorem request_write_error:
  "fst (request hex_utils False dead_link None [] initial) = Inl TransportError
   \<and> map_option get_result (result (snd (request hex_utils False dead_link None [] initial)))
       = Some (Inl TimeoutError)
   \<and> map_option sent (connection (snd (request hex_utils False dead_link None [] initial)))
       = Some []"
  by (simp add: request_def request_begin_failing dead_link_def fresh_def get_result_def)

text \<open>
  C9, amended: every call sets up a fresh session (empty buffer, no expected length, the
  given connection bound), arms the result channel with the caller's timeout, 60 seconds
  when omitted, and writes exactly the 5-byte start frame (command 0x00, category 0x11,
  length 0), encoded as text, on handle 0x11. When that write completes, the call returns
  whatever \<^verbatim>\<open>get_result\<close> of the session's channel yields or raises, after the
  notifications handled meanwhile. When the write raises, its error goes to the caller,
  nothing is sent and the channel is not awaited.
\<close>

theorem request_sends_start_and_awaits:
  "(\<not> failing c \<longrightarrow>
      request_begin u strict c t s
        = (None, fresh u strict c (case t of None \<Rightarrow> 60 | Some x \<Rightarrow> x))
      \<and> snd (request u strict c t evs s)
          = snd (run u evs (fresh u strict c (case t of None \<Rightarrow> 60 | Some x \<Rightarrow> x)))
      \<and> (\<exists>rc. result (snd (request u strict c t evs s)) = Some rc
              \<and> timeout rc = (case t of None \<Rightarrow> 60 | Some x \<Rightarrow> x)
              \<and> fst (request u strict c t evs s) = get_result rc))
   \<and> (failing c \<longrightarrow>
        request u strict c t evs s
          = (Inl TransportError,
             (fresh u strict c (case t of None \<Rightarrow> 60 | Some x \<Rightarrow> x))\<lparr>connection := Some c\<rparr>))"
proof (cases "failing c")
  case True
  then show ?thesis
    by (simp add: request_def request_begin_failing)
next
  case False
  let ?t = "case t of None \<Rightarrow> 60 | Some x \<Rightarrow> x"
  let ?s0 = "fresh u strict c ?t"
  have b: "request_begin u strict c t s = (None, ?s0)"
    using False by (rule request_begin_ok)
  have "result ?s0 = Some \<lparr>timeout = ?t, raises_when_done = strict, delivered = []\<rparr>"
    by (simp add: fresh_def)
  from run_result_kept [OF this, of u evs] obtain rc
    where rc: "result (snd (run u evs ?s0)) = Some rc" "timeout rc = ?t"
    by auto
  have r: "request u strict c t evs s = (get_result rc, snd (run u evs ?s0))"
    using rc(1) by (simp add: request_def b split_beta)
  show ?thesis
    using False b r rc by simp
qed

theorem request_sends_start_and_awaits_witness:
  "\<not> failing link
   \<and> request_begin hex_utils False link None initial = (None, fresh hex_utils False link 60)
   \<and> fst (request hex_utils False link None (Drsp frame400 # map Convoy chunks400) initial)
       = Inr 100
   \<and> failing dead_link
   \<and> request hex_utils False dead_link (Some 5) (Drsp frame400 # map Convoy chunks400) initial
       = (Inl TransportError, (fresh hex_utils False dead_link 5)\<lparr>connection := Some dead_link\<rparr>)"
proof -
  let ?evs = "Drsp frame400 # map Convoy chunks400"
  have l: "\<not> failing link" and d: "failing dead_link"
    by (simp_all add: link_def dead_link_def)
  note ok = request_sends_start_and_awaits [of link hex_utils False None initial ?evs,
      unfolded option.case]
  note ko = request_sends_start_and_awaits [of dead_link hex_utils False "Some 5" initial ?evs,
      unfolded option.case]
  from ok l obtain rc where
    b: "request_begin hex_utils False link None initial = (None, fresh hex_utils False link 60)"
    and s: "snd (request hex_utils False link None ?evs initial)
            = snd (run hex_utils ?evs (fresh hex_utils False link 60))"
    and rc: "result (snd (request hex_utils False link None ?evs initial)) = Some rc"
      "fst (request hex_utils False link None ?evs initial) = get_result rc"
    by blast
  have "map_option get_result (result (snd (run hex_utils ?evs (fresh hex_utils False link 60))))
        = Some (Inr 100)"
    by (rule run_scenario [where rc = "CancelableResult False 60"])
       (simp_all add: fresh_def CancelableResult_def)
  with s rc have "fst (request hex_utils False link None ?evs initial) = Inr 100"
    by simp
  with b l d ko show ?thesis
    by blast
qed

end
